theory Spec2Isabelle
  imports Complex_Main "HOL-Library.Sublist" "HOL-Library.Log_Nat"
begin

section \<open>The trigger module of NEROSYS (cogs/example/example.py)\<close>

text \<open>
  The module answers a chat message with a stored response when the message contains a
  stored trigger. Triggers are kept per guild in a table \<open>messages\<close>, the settings
  \<open>enabled\<close> and \<open>cooldown\<close> per guild in a table \<open>settings\<close>, and the time of the
  last answer per guild and user in a dictionary held in memory.

  Python values are modelled as follows: \<open>int\<close> as \<^typ>\<open>int\<close>; a \<open>str\<close> as the
  \<^typ>\<open>string\<close> of the bytes of its UTF-8 encoding; a \<open>float\<close> as the \<^typ>\<open>real\<close> it
  stands for, every sum being rounded as binary64 arithmetic rounds it; a \<open>dict\<close> as a
  map; a raised exception as a value.
\<close>

subsection \<open>Strings\<close>

text \<open>
  \<open>str.lower()\<close>. On a string of ASCII characters it maps the letters \<open>A\<close> to \<open>Z\<close> to
  \<open>a\<close> to \<open>z\<close> and leaves every other character. On a string with a character
  outside ASCII its result is fixed by the case tables of the Unicode standard, which
  are no part of the module: there the result is that of the parameter \<open>u\<close>, about
  which nothing is assumed.
\<close>

definition is_ascii :: "char \<Rightarrow> bool" where
  "is_ascii c \<longleftrightarrow> (of_char c :: nat) < 128"

definition lower_char :: "char \<Rightarrow> char" where
  "lower_char c =
     (let n = (of_char c :: nat) in if 65 \<le> n \<and> n \<le> 90 then char_of (n + 32) else c)"

definition lower :: "(string \<Rightarrow> string) \<Rightarrow> string \<Rightarrow> string" where
  "lower u s = (if list_all is_ascii s then map lower_char s else u s)"

text \<open>
  The operator \<open>in\<close> on two strings, \<open>s in c\<close>: \<open>s\<close> occurs in \<open>c\<close> as a contiguous run
  of characters. The comparison is exact, character by character.
\<close>

fun str_in :: "string \<Rightarrow> string \<Rightarrow> bool" where
  "str_in s [] = (s = [])"
| "str_in s (c # cs) = (prefix s (c # cs) \<or> str_in s cs)"

subsection \<open>Numbers\<close>

text \<open>
  The values of the dictionary of cooldowns: the \<open>int\<close> 0 that \<open>setdefault\<close> puts
  there, or a \<open>float\<close> read from the clock.
\<close>

datatype number = PyInt int | PyFloat real

text \<open>Rounding to the nearest integer, a tie going to the even one.\<close>

definition rne :: "real \<Rightarrow> int" where
  "rne y =
     (let f = \<lfloor>y\<rfloor>; d = y - of_int f
      in if d < 1 / 2 then f else if 1 / 2 < d then f + 1 else if even f then f else f + 1)"

text \<open>
  The binary exponent of a real number other than 0, that is the \<open>e\<close> with
  \<open>2 ^ e \<le> \<bar>x\<bar> < 2 ^ (e + 1)\<close>, computed from the number of bits of an integer.
\<close>

definition exponent :: "real \<Rightarrow> int" where
  "exponent x =
     (if 1 \<le> \<bar>x\<bar> then bitlen \<lfloor>\<bar>x\<bar>\<rfloor> - 1 else - bitlen (\<lceil>1 / \<bar>x\<bar>\<rceil> - 1))"

text \<open>
  Rounding a real number to binary64: 53 significant bits, exponents from -1022 on
  (below, the spacing stays \<open>2 ^ -1074\<close>), to the nearest number, a tie going to the
  even significand. Results beyond the largest finite number, about \<open>1.8e308\<close>, which
  binary64 turns into infinity, are outside the model; the sum of a time of the clock
  and a cooldown is far from there.
\<close>

definition round64 :: "real \<Rightarrow> real" where
  "round64 x =
     (let k = max (exponent x) (- 1022) - 52 in of_int (rne (x / 2 powi k)) * 2 powi k)"

text \<open>
  \<open>last_resp + guild_cooldown\<close>: the sum of two \<open>int\<close> is exact; added to a \<open>float\<close>,
  the \<open>int\<close> is converted to a \<open>float\<close>, which rounds it, and the sum is rounded.
  A cooldown comes from a slash command of Discord, whose integers are at most
  \<open>2 ^ 53\<close> in size, so the conversion cannot overflow.
\<close>

fun py_add :: "number \<Rightarrow> int \<Rightarrow> number" where
  "py_add (PyInt a) c = PyInt (a + c)"
| "py_add (PyFloat x) c = PyFloat (round64 (x + round64 (of_int c)))"

text \<open>\<open>x > now\<close> with \<open>now\<close> a \<open>float\<close>: the comparison is exact for both kinds.\<close>

fun py_gt :: "number \<Rightarrow> real \<Rightarrow> bool" where
  "py_gt (PyInt a) y = (of_int a > y)"
| "py_gt (PyFloat x) y = (x > y)"

text \<open>The real number a value stands for.\<close>

fun num_value :: "number \<Rightarrow> real" where
  "num_value (PyInt a) = of_int a"
| "num_value (PyFloat x) = x"

subsection \<open>Dictionaries\<close>

text \<open>\<open>dict.setdefault(k, v)\<close>: the dictionary after the call, and the value returned.\<close>

definition setdefault :: "('k \<rightharpoonup> 'v) \<Rightarrow> 'k \<Rightarrow> 'v \<Rightarrow> ('k \<rightharpoonup> 'v) \<times> 'v" where
  "setdefault d k v = (case d k of None \<Rightarrow> (d(k \<mapsto> v), v) | Some x \<Rightarrow> (d, x))"

subsection \<open>The record store of a guild\<close>

text \<open>A row of the table \<open>messages (id, trigger, response, author_id)\<close>.\<close>

record row =
  row_id :: int
  trigger :: string
  response :: string
  author_id :: int

datatype error = StoreUnavailable

text \<open>The four operations of a store handle that example.py calls.\<close>

datatype store_op = Get_dict_value | Set_dict_value | Fetch_all | Execute

text \<open>
  Modelled from the spec: the store handle \<open>self.data.get(guild)\<close> of common/dataio.py,
  which is not part of the sources at hand. The spec describes it as a store with
  get/set/list/insert/delete whose operations may fail with \<open>StoreUnavailable\<close>, the
  failure propagating to the caller; it holds the settings \<open>enabled\<close> (default true) and
  \<open>cooldown\<close> (default 5) as typed values, and the trigger records, listed in ascending
  order of an \<open>id\<close> that the store assigns, that grows with every insertion and that is
  never used again after a deletion. The field \<open>seq\<close> is the last id assigned (the
  AUTOINCREMENT counter of the table), \<open>unavailable\<close> the operations that fail at present.
\<close>

record guild_data =
  enabled :: bool
  cooldown :: int
  messages :: "row list"
  seq :: int
  unavailable :: "store_op set"

definition default_guild_data :: guild_data where
  "default_guild_data =
     \<lparr>enabled = True, cooldown = 5, messages = [], seq = 0, unavailable = {}\<rparr>"

text \<open>Modelled from the spec: \<open>get_dict_value('settings', key, cast=...)\<close> of common/dataio.py.\<close>

definition get_dict_value :: "guild_data \<Rightarrow> (guild_data \<Rightarrow> 'a) \<Rightarrow> error + 'a" where
  "get_dict_value d key =
     (if Get_dict_value \<in> unavailable d then Inl StoreUnavailable else Inr (key d))"

text \<open>Modelled from the spec: \<open>set_dict_value('settings', key, value)\<close> of common/dataio.py.\<close>

definition set_dict_value :: "guild_data \<Rightarrow> (guild_data \<Rightarrow> guild_data) \<Rightarrow> error + guild_data" where
  "set_dict_value d upd =
     (if Set_dict_value \<in> unavailable d then Inl StoreUnavailable else Inr (upd d))"

text \<open>
  Modelled from the spec: \<open>fetch_all('SELECT * FROM messages')\<close> of common/dataio.py, all
  rows of the table in ascending order of \<open>id\<close>.
\<close>

definition fetch_all :: "guild_data \<Rightarrow> error + row list" where
  "fetch_all d = (if Fetch_all \<in> unavailable d then Inl StoreUnavailable else Inr (messages d))"

text \<open>
  Modelled from the spec: \<open>execute('INSERT INTO messages (trigger, response, author_id)
  VALUES (?, ?, ?)', ...)\<close> of common/dataio.py. The new row gets the next id.
\<close>

definition execute_insert :: "guild_data \<Rightarrow> string \<Rightarrow> string \<Rightarrow> int \<Rightarrow> error + guild_data" where
  "execute_insert d t r a =
     (if Execute \<in> unavailable d then Inl StoreUnavailable
      else Inr (d\<lparr>messages := messages d @
                     [\<lparr>row_id = seq d + 1, trigger = t, response = r, author_id = a\<rparr>],
                   seq := seq d + 1\<rparr>))"

text \<open>
  Modelled from the spec: \<open>execute('DELETE FROM messages WHERE id = ?', (id,))\<close> of
  common/dataio.py. Every row with that id goes; the others stay, in their order.
\<close>

definition execute_delete :: "guild_data \<Rightarrow> int \<Rightarrow> error + guild_data" where
  "execute_delete d i =
     (if Execute \<in> unavailable d then Inl StoreUnavailable
      else Inr (d\<lparr>messages := filter (\<lambda>m. row_id m \<noteq> i) (messages d)\<rparr>))"

subsection \<open>The state of the module\<close>

text \<open>
  \<open>self.data\<close>, one store per guild id, created with the defaults on first access, and
  \<open>self.__cooldowns\<close>, the dictionary \<open>{guild_id: {user_id: timestamp}}\<close>.
\<close>

record example =
  data :: "int \<Rightarrow> guild_data"
  cooldowns :: "int \<rightharpoonup> (int \<rightharpoonup> number)"

definition init :: example where
  "init = \<lparr>data = (\<lambda>g. default_guild_data), cooldowns = Map.empty\<rparr>"

text \<open>Writing back the store of one guild after an operation that may have failed.\<close>

definition store :: "example \<Rightarrow> int \<Rightarrow> error + guild_data \<Rightarrow> error + example" where
  "store e g res = (case res of Inl err \<Rightarrow> Inl err | Inr d \<Rightarrow> Inr (e\<lparr>data := (data e)(g := d)\<rparr>))"

subsection \<open>Settings and messages (lines 50 to 82)\<close>

definition is_enabled :: "example \<Rightarrow> int \<Rightarrow> error + bool" where
  "is_enabled e g = get_dict_value (data e g) enabled"

definition set_enabled :: "example \<Rightarrow> int \<Rightarrow> bool \<Rightarrow> error + example" where
  "set_enabled e g b = store e g (set_dict_value (data e g) (\<lambda>d. d\<lparr>enabled := b\<rparr>))"

definition get_guild_cooldown :: "example \<Rightarrow> int \<Rightarrow> error + int" where
  "get_guild_cooldown e g = get_dict_value (data e g) cooldown"

definition set_guild_cooldown :: "example \<Rightarrow> int \<Rightarrow> int \<Rightarrow> error + example" where
  "set_guild_cooldown e g c = store e g (set_dict_value (data e g) (\<lambda>d. d\<lparr>cooldown := c\<rparr>))"

text \<open>\<open>r = fetch_all(...); return r if r else []\<close>\<close>

definition get_messages :: "example \<Rightarrow> int \<Rightarrow> error + row list" where
  "get_messages e g =
     (case fetch_all (data e g) of
        Inl err \<Rightarrow> Inl err
      | Inr r \<Rightarrow> Inr (if r \<noteq> [] then r else []))"

definition add_message :: "example \<Rightarrow> int \<Rightarrow> string \<Rightarrow> string \<Rightarrow> int \<Rightarrow> error + example" where
  "add_message e g t r a = store e g (execute_insert (data e g) t r a)"

definition remove_message :: "example \<Rightarrow> int \<Rightarrow> int \<Rightarrow> error + example" where
  "remove_message e g i = store e g (execute_delete (data e g) i)"

subsection \<open>Commands (lines 89 to 166)\<close>

text \<open>
  An interaction: the guild it comes from (\<open>None\<close> in a private channel, where
  \<open>interaction.guild\<close> is no \<open>discord.Guild\<close>) and the id of the user.
\<close>

record interaction =
  i_guild :: "int option"
  user_id :: int

text \<open>
  The answers of the commands. \<open>NotInScope\<close> is the message "Erreur: Cette commande n'est
  pas disponible en MP", \<open>DuplicateTrigger\<close> is "Erreur: Ce declencheur est deja utilise",
  \<open>LimitExceeded\<close> is "Erreur: Tu as atteint le nombre maximum de messages de reponse",
  \<open>Success\<close> any of the messages that start with "Succes".
\<close>

datatype reply = NotInScope | DuplicateTrigger | LimitExceeded | Success

text \<open>
  A command returns the state after it and either the exception it raised or its answer.
  A command that raises has written nothing.
\<close>

definition finish :: "example \<Rightarrow> error + example \<Rightarrow> example \<times> (error + reply)" where
  "finish e res = (case res of Inl err \<Rightarrow> (e, Inl err) | Inr e' \<Rightarrow> (e', Inr Success))"

definition config_enable :: "example \<Rightarrow> interaction \<Rightarrow> bool \<Rightarrow> example \<times> (error + reply)" where
  "config_enable e i b =
     (case i_guild i of
        None \<Rightarrow> (e, Inr NotInScope)
      | Some g \<Rightarrow> finish e (set_enabled e g b))"

definition config_cooldown :: "example \<Rightarrow> interaction \<Rightarrow> int \<Rightarrow> example \<times> (error + reply)" where
  "config_cooldown e i c =
     (case i_guild i of
        None \<Rightarrow> (e, Inr NotInScope)
      | Some g \<Rightarrow> finish e (set_guild_cooldown e g c))"

text \<open>
  The loop of \<open>trig_add\<close> over the rows, which leaves the command at the first row whose
  trigger equals the new one. \<open>trig_add\<close> takes the parameter \<open>u\<close> of \<open>lower\<close>.
\<close>

fun trigger_used :: "row list \<Rightarrow> string \<Rightarrow> bool" where
  "trigger_used [] t = False"
| "trigger_used (msg # msgs) t = (if trigger msg = t then True else trigger_used msgs t)"

definition trig_add ::
  "(string \<Rightarrow> string) \<Rightarrow> example \<Rightarrow> interaction \<Rightarrow> string \<Rightarrow> string \<Rightarrow>
   example \<times> (error + reply)" where
  "trig_add u e i trig resp =
     (case i_guild i of
        None \<Rightarrow> (e, Inr NotInScope)
      | Some g \<Rightarrow>
          (let t = lower u trig in
           case get_messages e g of
             Inl err \<Rightarrow> (e, Inl err)
           | Inr msgs \<Rightarrow>
               if trigger_used msgs t then (e, Inr DuplicateTrigger)
               else if length msgs \<ge> 20 then (e, Inr LimitExceeded)
               else finish e (add_message e g t resp (user_id i))))"

definition trig_remove :: "example \<Rightarrow> interaction \<Rightarrow> int \<Rightarrow> example \<times> (error + reply)" where
  "trig_remove e i n =
     (case i_guild i of
        None \<Rightarrow> (e, Inr NotInScope)
      | Some g \<Rightarrow> finish e (remove_message e g n))"

subsection \<open>The listener (lines 179 to 200)\<close>

text \<open>
  A message: its guild (\<open>None\<close> when \<open>message.guild\<close> is no \<open>discord.Guild\<close>), the id of
  its author, whether the author is a bot, and its text.
\<close>

record message =
  guild :: "int option"
  author :: int
  author_bot :: bool
  content :: string

text \<open>
  The loop over the rows. Its state is the list of responses sent to the channel so far
  and the dictionary of the guild. At the first row whose trigger is in the content the
  response is sent, the time \<open>t\<close> is stored for the author, and \<open>break\<close> ends the loop.
\<close>

fun respond_loop ::
  "row list \<Rightarrow> message \<Rightarrow> real \<Rightarrow> string list \<times> (int \<rightharpoonup> number) \<Rightarrow>
   string list \<times> (int \<rightharpoonup> number)" where
  "respond_loop [] m t st = st"
| "respond_loop (msg # msgs) m t st =
     (if str_in (trigger msg) (content m)
      then (fst st @ [response msg], (snd st)(author m \<mapsto> PyFloat t))
      else respond_loop msgs m t st)"

text \<open>
  \<open>on_message\<close> reads the clock twice: \<open>now\<close> is the reading of the cooldown test
  (line 191), \<open>now'\<close> the reading stored after the response was sent (line 199). The
  result is the state after the call, the responses sent to the channel, and the
  exception raised, if any. The inner dictionary \<open>cds\<close> is an object shared with
  \<open>self.__cooldowns\<close>, so every change of it is a change of the state, also when the
  function returns early or raises afterwards. Sending to the channel is taken to
  succeed.
\<close>

definition on_message ::
  "example \<Rightarrow> message \<Rightarrow> real \<Rightarrow> real \<Rightarrow> example \<times> string list \<times> error option" where
  "on_message e m now now' =
     (case guild m of
        None \<Rightarrow> (e, [], None)
      | Some g \<Rightarrow>
          if author_bot m then (e, [], None)
          else
            (case is_enabled e g of
               Inl err \<Rightarrow> (e, [], Some err)
             | Inr en \<Rightarrow>
                 if \<not> en then (e, [], None)
                 else
                   (case get_guild_cooldown e g of
                      Inl err \<Rightarrow> (e, [], Some err)
                    | Inr guild_cooldown \<Rightarrow>
                        (let (cm, cds) = setdefault (cooldowns e) g Map.empty;
                             (cds1, last_resp) = setdefault cds (author m) (PyInt 0);
                             e1 = e\<lparr>cooldowns := cm(g \<mapsto> cds1)\<rparr>
                         in if py_gt (py_add last_resp guild_cooldown) now then (e1, [], None)
                            else
                              (case get_messages e1 g of
                                 Inl err \<Rightarrow> (e1, [], Some err)
                               | Inr msgs \<Rightarrow>
                                   (let (out, cds2) = respond_loop msgs m now' ([], cds1)
                                    in (e1\<lparr>cooldowns := cm(g \<mapsto> cds2)\<rparr>, out, None)))))))"

subsection \<open>What the claims speak about\<close>

text \<open>
  The time of the last response to a user in a guild, as \<open>on_message\<close> reads it: a
  missing entry counts as the \<open>int\<close> 0.
\<close>

definition last_timestamp :: "(int \<rightharpoonup> (int \<rightharpoonup> number)) \<Rightarrow> int \<Rightarrow> int \<Rightarrow> number" where
  "last_timestamp c g u =
     (case c g of None \<Rightarrow> PyInt 0 | Some cds \<Rightarrow> (case cds u of None \<Rightarrow> PyInt 0 | Some t \<Rightarrow> t))"

text \<open>
  The states the module can be in: it starts with empty stores and an empty dictionary,
  and each command and each message leads to a next state. Which operations of a store
  fail can change at any moment. The cooldown given to \<open>config_cooldown\<close> is of type
  \<open>app_commands.Range[int, 0]\<close>, so it is never negative.
\<close>

inductive reachable :: "(string \<Rightarrow> string) \<Rightarrow> example \<Rightarrow> bool" for u where
  r_init: "reachable u init"
| r_enable: "reachable u e \<Longrightarrow> reachable u (fst (config_enable e i b))"
| r_cooldown: "reachable u e \<Longrightarrow> 0 \<le> c \<Longrightarrow> reachable u (fst (config_cooldown e i c))"
| r_add: "reachable u e \<Longrightarrow> reachable u (fst (trig_add u e i trig resp))"
| r_remove: "reachable u e \<Longrightarrow> reachable u (fst (trig_remove e i n))"
| r_message: "reachable u e \<Longrightarrow> reachable u (fst (on_message e m now now'))"
| r_fault: "reachable u e \<Longrightarrow>
     reachable u (e\<lparr>data := (data e)(g := (data e g)\<lparr>unavailable := ops\<rparr>)\<rparr>)"

text \<open>
  What holds of every store the module can reach: at most 20 rows, ids strictly
  ascending and not above the counter, every trigger the lower case of some string.
\<close>

definition store_ok :: "(string \<Rightarrow> string) \<Rightarrow> guild_data \<Rightarrow> bool" where
  "store_ok u d \<longleftrightarrow>
     length (messages d) \<le> 20 \<and>
     sorted_wrt (<) (map row_id (messages d)) \<and>
     list_all (\<lambda>m. row_id m \<le> seq d) (messages d) \<and>
     list_all (\<lambda>m. trigger m \<in> range (lower u)) (messages d)"

text \<open>
  The inner dictionary of guild \<open>g\<close> after the two calls of \<open>setdefault\<close> for user \<open>u\<close>.
\<close>

definition checked :: "(int \<rightharpoonup> (int \<rightharpoonup> number)) \<Rightarrow> int \<Rightarrow> int \<Rightarrow> (int \<rightharpoonup> number)" where
  "checked c g u =
     (case c g of None \<Rightarrow> Map.empty | Some cds \<Rightarrow> cds)(u \<mapsto> last_timestamp c g u)"

subsection \<open>Concrete states\<close>

text \<open>
  In the states below every trigger consists of ASCII characters, so that \<open>lower\<close>
  never consults its parameter and the states are the same for every parameter; the
  parameter is the identity there.
\<close>

definition ascii_only :: "string \<Rightarrow> string" where
  "ascii_only s = s"

text \<open>
  A user of guild 1; the state after that user added the trigger \<open>hi\<close>; the state after
  that user added twenty triggers \<open>a\<close>, \<open>aa\<close>, \<open>aaa\<close> and so on.
\<close>

definition i1 :: interaction where
  "i1 = \<lparr>i_guild = Some 1, user_id = 42\<rparr>"

definition hi_store :: example where
  "hi_store = fst (trig_add ascii_only init i1 ''hi'' ''hello there'')"

definition full_store :: example where
  "full_store =
     foldl (\<lambda>e n. fst (trig_add ascii_only e i1 (replicate n CHR ''a'') ''ok'')) init [1..<21]"

text \<open>
  A message of a user of guild 1 who is no bot. The states after the trigger \<open>gm\<close> was
  added, after \<open>morning\<close> was added as well, after the empty trigger was added to
  \<open>gm\<close>, and after \<open>Hello\<close> was added to an empty store. The state with \<open>gm\<close> in which
  user 7 got a response at time 0, the one in which the cooldown was set to 2000000000
  seconds, and the one in which the rows cannot be read.
\<close>

definition say :: "int \<Rightarrow> string \<Rightarrow> message" where
  "say u c = \<lparr>guild = Some 1, author = u, author_bot = False, content = c\<rparr>"

definition gm_store :: example where
  "gm_store = fst (trig_add ascii_only init i1 ''gm'' ''good morning'')"

definition two_store :: example where
  "two_store = fst (trig_add ascii_only gm_store i1 ''morning'' ''it is'')"

definition catch_all_store :: example where
  "catch_all_store = fst (trig_add ascii_only gm_store i1 [] ''pong'')"

definition hello_store :: example where
  "hello_store = fst (trig_add ascii_only init i1 ''Hello'' ''hi there'')"

definition cooling_store :: example where
  "cooling_store = gm_store\<lparr>cooldowns := [1 \<mapsto> [7 \<mapsto> PyFloat 0]]\<rparr>"


definition broken_store :: example where
  "broken_store = gm_store\<lparr>data := (data gm_store)(1 := (data gm_store 1)\<lparr>unavailable := {Fetch_all}\<rparr>)\<rparr>"

text \<open>
  Two readings of the clock five seconds apart, on 19 January 2038 at 03:14:03.000004
  and 03:14:08.000004 UTC, as the binary64 numbers that \<open>timestamp()\<close> returns for
  them, and the state after user 7 wrote \<open>gm\<close> a second before and the time stored
  after the response was the first of them.
\<close>

definition clock_a :: real where
  "clock_a = 2147483643 + 17 / 4194304"

definition clock_b :: real where
  "clock_b = 2147483648 + 1 / 262144"

definition late_store :: example where
  "late_store = fst (on_message gm_store (say 7 ''gm'') 2147483642 clock_a)"

section \<open>Auxiliary facts\<close>

subsection \<open>Strings\<close>

lemma str_in_sublist: "str_in s c = sublist s c"
  by (induction c) (auto simp: sublist_Cons_right)

lemma str_in_empty: "str_in [] c"
  by (cases c) auto

lemma lower_Nil: "lower u [] = []"
  by (simp add: lower_def)

text \<open>On strings of ASCII characters neither \<open>lower\<close> nor \<open>trig_add\<close> depends on \<open>u\<close>.\<close>

lemma lower_ascii: "list_all is_ascii s \<Longrightarrow> lower u s = map lower_char s"
  by (simp add: lower_def)

lemma trig_add_ascii:
  "list_all is_ascii trig \<Longrightarrow> trig_add u e i trig resp = trig_add ascii_only e i trig resp"
  by (simp add: trig_add_def lower_ascii Let_def cong: option.case_cong)

lemma lower_char_idem: "lower_char (lower_char c) = lower_char c"
  by (auto simp: lower_char_def Let_def)

lemma lower_char_ascii: "is_ascii c \<Longrightarrow> is_ascii (lower_char c)"
  by (auto simp: lower_char_def is_ascii_def Let_def)

lemma lower_ascii_only_idem: "lower ascii_only (lower ascii_only s) = lower ascii_only s"
  by (auto simp: lower_def ascii_only_def list_all_iff lower_char_idem lower_char_ascii)

subsection \<open>Rounding\<close>

lemma floor_log2_between:
  fixes y :: real and L :: int
  assumes "2 powi L \<le> y" "y < 2 powi (L + 1)"
  shows "\<lfloor>log 2 y\<rfloor> = L"
proof -
  have "(0::real) < 2 powi L" by simp
  then have y: "0 < y" using assms(1) by linarith
  have "2 powr (of_int L) \<le> y" "y < 2 powr (of_int L + 1)"
    using assms powr_real_of_int'[of 2 L] powr_real_of_int'[of 2 "L + 1"] by simp_all
  then show ?thesis using y by (simp add: floor_log_eq_powr_iff)
qed

lemma int_pow_le_real:
  fixes n :: int
  assumes "2 ^ k \<le> n"
  shows "(2::real) ^ k \<le> of_int n"
proof -
  have "real_of_int (2 ^ k) \<le> of_int n" using assms by (simp only: of_int_le_iff)
  then show ?thesis by simp
qed

lemma int_less_pow_real:
  fixes n :: int
  assumes "n < 2 ^ k"
  shows "of_int n + 1 \<le> (2::real) ^ k"
proof -
  have "n + 1 \<le> 2 ^ k" using assms by simp
  then have "real_of_int (n + 1) \<le> real_of_int (2 ^ k)" by (simp only: of_int_le_iff)
  then show ?thesis by simp
qed

lemma exponent_log:
  assumes "x \<noteq> 0"
  shows "exponent x = \<lfloor>log 2 \<bar>x\<bar>\<rfloor>"
proof (cases "1 \<le> \<bar>x\<bar>")
  case True
  define n where "n = \<lfloor>\<bar>x\<bar>\<rfloor>"
  define L where "L = bitlen n"
  have n: "0 < n" using True by (simp add: n_def)
  then have L: "1 \<le> L" by (simp add: L_def bitlen_alt_def)
  have b: "2 ^ nat (L - 1) \<le> n" "n < 2 ^ nat L"
    using bitlen_bounds[OF n] by (simp_all add: L_def)
  have nx: "of_int n \<le> \<bar>x\<bar>" "\<bar>x\<bar> < of_int n + 1"
    unfolding n_def by linarith+
  have "(2::real) ^ nat (L - 1) \<le> \<bar>x\<bar>"
    using int_pow_le_real[OF b(1)] nx(1) by linarith
  moreover have "(2::real) powi (L - 1) = 2 ^ nat (L - 1)"
    using L by (simp add: power_int_def)
  ultimately have lo: "2 powi (L - 1) \<le> \<bar>x\<bar>" by simp
  have "\<bar>x\<bar> < (2::real) ^ nat L"
    using int_less_pow_real[OF b(2)] nx(2) by linarith
  moreover have "(2::real) powi (L - 1 + 1) = 2 ^ nat L"
    using L by (simp add: power_int_def)
  ultimately have hi: "\<bar>x\<bar> < 2 powi (L - 1 + 1)" by simp
  have "\<lfloor>log 2 \<bar>x\<bar>\<rfloor> = L - 1"
    by (rule floor_log2_between[OF lo hi])
  then show ?thesis
    using True by (simp add: exponent_def n_def L_def)
next
  case False
  define c where "c = \<lceil>1 / \<bar>x\<bar>\<rceil>"
  define L where "L = bitlen (c - 1)"
  have x: "0 < \<bar>x\<bar>" "\<bar>x\<bar> < 1" using assms False by simp_all
  then have inv: "1 < 1 / \<bar>x\<bar>" by simp
  have cx: "of_int c - 1 < 1 / \<bar>x\<bar>" "1 / \<bar>x\<bar> \<le> of_int c"
    unfolding c_def by linarith+
  have "1 < real_of_int c" using inv cx(2) by linarith
  then have c: "0 < c - 1" by simp
  then have L: "1 \<le> L" by (simp add: L_def bitlen_alt_def)
  have b: "2 ^ nat (L - 1) \<le> c - 1" "c - 1 < 2 ^ nat L"
    using bitlen_bounds[OF c] by (simp_all add: L_def)
  have "real_of_int (c - 1) = real_of_int c - 1" by simp
  then have "(2::real) ^ nat (L - 1) < 1 / \<bar>x\<bar>"
    using int_pow_le_real[OF b(1)] cx(1) by linarith
  then have "\<bar>x\<bar> * 2 ^ nat (L - 1) < 1"
    using x(1) by (simp add: field_simps)
  then have "\<bar>x\<bar> < 1 / 2 ^ nat (L - 1)"
    by (simp add: field_simps)
  moreover have "(2::real) powi (- L + 1) = 1 / 2 ^ nat (L - 1)"
    using L by (simp add: power_int_def field_simps)
  ultimately have hi: "\<bar>x\<bar> < 2 powi (- L + 1)" by simp
  have "real_of_int (c - 1) + 1 = real_of_int c" by simp
  then have "1 / \<bar>x\<bar> \<le> 2 ^ nat L"
    using int_less_pow_real[OF b(2)] cx(2) by linarith
  then have "1 \<le> \<bar>x\<bar> * 2 ^ nat L"
    using x(1) by (simp add: field_simps)
  then have "1 / 2 ^ nat L \<le> \<bar>x\<bar>"
    by (simp add: field_simps)
  moreover have "(2::real) powi (- L) = 1 / 2 ^ nat L"
    using L by (simp add: power_int_def field_simps)
  ultimately have lo: "2 powi (- L) \<le> \<bar>x\<bar>" by simp
  have "\<lfloor>log 2 \<bar>x\<bar>\<rfloor> = - L"
    by (rule floor_log2_between[OF lo hi])
  then show ?thesis
    using False by (simp add: exponent_def c_def L_def)
qed

lemma rne_of_int: "rne (of_int n) = n"
  by (simp add: rne_def)

lemma rne_le: "y \<le> of_int n \<Longrightarrow> rne y \<le> n"
proof -
  assume a: "y \<le> of_int n"
  have "rne y \<le> \<lceil>y\<rceil>"
    by (auto simp: rne_def Let_def ceiling_altdef)
  moreover have "\<lceil>y\<rceil> \<le> n" using a by (simp add: ceiling_le_iff)
  ultimately show ?thesis by simp
qed

lemma bitlen_5: "bitlen 5 = 3"
  by code_simp

lemma bitlen_2_31: "bitlen 2147483648 = 32"
  by code_simp

lemma round64_0: "round64 0 = 0"
  by (simp add: round64_def exponent_def rne_def)

lemma round64_5: "round64 5 = 5"
  by (simp add: round64_def exponent_def rne_def bitlen_5 power_int_minus)

lemma round64_clock: "round64 (clock_a + 5) = clock_b"
  by (simp add: clock_a_def clock_b_def round64_def exponent_def rne_def bitlen_2_31
      power_int_minus Let_def)

lemma round64_of_int:
  assumes "\<bar>c\<bar> < 2 ^ 53"
  shows "round64 (of_int c) = of_int c"
proof (cases "c = 0")
  case True
  then show ?thesis by (simp add: round64_0)
next
  case False
  then have c: "0 < \<bar>c\<bar>" by simp
  define e where "e = exponent (of_int c)"
  have a: "\<bar>real_of_int c\<bar> = real_of_int \<bar>c\<bar>" by simp
  have "1 \<le> \<bar>c\<bar>" using c by simp
  then have "1 \<le> real_of_int \<bar>c\<bar>" by (simp only: of_int_1_le_iff)
  then have e: "e = bitlen \<bar>c\<bar> - 1"
    unfolding e_def exponent_def a by (simp only: if_True floor_of_int)
  have "bitlen \<bar>c\<bar> \<le> 53"
    using assms by (simp add: bitlen_le_iff_power)
  moreover have "1 \<le> bitlen \<bar>c\<bar>"
    using c by (simp add: bitlen_alt_def)
  ultimately have k: "max e (- 1022) - 52 = - int (nat (52 - e))"
    using e by simp
  define d where "d = nat (52 - e)"
  have p: "(2::real) powi (- int d) = 1 / 2 ^ d"
    by (simp add: power_int_def field_simps)
  have "real_of_int c / (1 / 2 ^ d) = of_int (c * 2 ^ d)" by simp
  then have "rne (real_of_int c / (1 / 2 ^ d)) = c * 2 ^ d"
    by (simp only: rne_of_int)
  then show ?thesis
    using k p by (simp add: round64_def e_def d_def Let_def)
qed

text \<open>
  When the sum of the last time and the cooldown is at most \<open>now\<close> as real numbers,
  the test of line 191 lets the message pass: rounding the sum does not lift it above a
  binary64 number that is not below it.
\<close>

lemma exponent_mono:
  assumes "0 < s" "s \<le> y"
  shows "exponent s \<le> exponent y"
proof -
  have "log 2 \<bar>s\<bar> \<le> log 2 \<bar>y\<bar>" using assms by simp
  then have "\<lfloor>log 2 \<bar>s\<bar>\<rfloor> \<le> \<lfloor>log 2 \<bar>y\<bar>\<rfloor>" by (rule floor_mono)
  then show ?thesis using assms by (simp add: exponent_log)
qed

lemma round64_le_float:
  assumes "0 \<le> s" "s \<le> y" "round64 y = y"
  shows "round64 s \<le> y"
proof (cases "s = 0")
  case True
  then show ?thesis using assms by (simp add: round64_0)
next
  case False
  then have s: "0 < s" using assms(1) by simp
  define ks where "ks = max (exponent s) (- 1022) - 52"
  define ky where "ky = max (exponent y) (- 1022) - 52"
  define M where "M = rne (y / 2 powi ky)"
  define d where "d = nat (ky - ks)"
  have "ks \<le> ky"
    using exponent_mono[OF s assms(2)] by (simp add: ks_def ky_def)
  then have ky: "ky = ks + int d" by (simp add: d_def)
  have y: "y = of_int M * 2 powi ky"
    using assms(3) by (simp add: round64_def ky_def M_def Let_def)
  have "(2::real) powi ky = 2 powi ks * 2 ^ d"
    unfolding ky by (simp add: power_int_add)
  then have y': "y = of_int (M * 2 ^ d) * 2 powi ks"
    using y by simp
  have q: "(0::real) < 2 powi ks" by simp
  have "s / 2 powi ks \<le> y / 2 powi ks"
    using assms(2) q by (simp add: divide_right_mono)
  also have "y / 2 powi ks = of_int (M * 2 ^ d)"
    using q by (subst y') simp
  finally have "rne (s / 2 powi ks) \<le> M * 2 ^ d" by (rule rne_le)
  then have "real_of_int (rne (s / 2 powi ks)) \<le> of_int (M * 2 ^ d)"
    by (simp only: of_int_le_iff)
  then have "real_of_int (rne (s / 2 powi ks)) * 2 powi ks \<le> real_of_int (M * 2 ^ d) * 2 powi ks"
    using q by (simp only: mult_le_cancel_right_pos)
  then show ?thesis
    unfolding y'[symmetric] by (simp add: round64_def ks_def Let_def)
qed

lemma elapsed_if_real:
  assumes "0 \<le> num_value t" "0 \<le> c" "round64 (of_int c) = of_int c" "round64 now = now"
    and "num_value t + of_int c \<le> now"
  shows "\<not> py_gt (py_add t c) now"
proof (cases t)
  case (PyInt a)
  then show ?thesis using assms(5) by simp
next
  case (PyFloat x)
  then have "0 \<le> x + of_int c" "x + of_int c \<le> now" using assms by simp_all
  then have "round64 (x + of_int c) \<le> now" using assms(4) by (rule round64_le_float)
  then show ?thesis using PyFloat assms(3) by simp
qed

subsection \<open>The two loops\<close>

lemma respond_loop_find:
  "respond_loop msgs m t st =
     (case find (\<lambda>r. str_in (trigger r) (content m)) msgs of
        None \<Rightarrow> st
      | Some r \<Rightarrow> (fst st @ [response r], (snd st)(author m \<mapsto> PyFloat t)))"
  by (induction msgs) auto

lemma trigger_used_iff: "trigger_used msgs t \<longleftrightarrow> t \<in> trigger ` set msgs"
  by (induction msgs) auto

text \<open>In a list with ascending ids the first row with a property has the least id.\<close>

lemma find_least:
  "sorted_wrt (<) (map row_id msgs) \<Longrightarrow> r \<in> set msgs \<Longrightarrow> P r \<Longrightarrow>
   (\<forall>r'\<in>set msgs. P r' \<longrightarrow> row_id r \<le> row_id r') \<Longrightarrow> find P msgs = Some r"
proof (induction msgs)
  case Nil
  then show ?case by simp
next
  case (Cons a msgs)
  show ?case
  proof (cases "P a")
    case True
    then have "row_id r \<le> row_id a" using Cons.prems by simp
    then have "r = a" using Cons.prems(1,2) by auto
    then show ?thesis using True by simp
  next
    case False
    then have "r \<in> set msgs" using Cons.prems by auto
    then show ?thesis using False Cons by simp
  qed
qed

subsection \<open>The dictionary of cooldowns\<close>

lemma setdefault_twice:
  "(let (cm, cds) = setdefault c g Map.empty; (cds1, last_resp) = setdefault cds u (PyInt 0)
    in F cm cds1 last_resp) =
   F (c(g \<mapsto> (case c g of None \<Rightarrow> Map.empty | Some cds \<Rightarrow> cds))) (checked c g u)
     (last_timestamp c g u)"
  by (auto simp: setdefault_def checked_def last_timestamp_def map_upd_triv split: option.splits)

lemma last_timestamp_checked:
  "last_timestamp (c(g \<mapsto> checked c g u)) g' u' = last_timestamp c g' u'"
  by (auto simp: checked_def last_timestamp_def split: option.splits)

lemma last_timestamp_recorded:
  "last_timestamp (c(g \<mapsto> (checked c g u)(u \<mapsto> t))) g' u' =
     (if g' = g \<and> u' = u then t else last_timestamp c g' u')"
  by (auto simp: checked_def last_timestamp_def split: option.splits)

subsection \<open>The listener, path by path\<close>

lemma on_message_unfold:
  "on_message e m now now' =
     (case guild m of
        None \<Rightarrow> (e, [], None)
      | Some g \<Rightarrow>
          if author_bot m then (e, [], None)
          else if Get_dict_value \<in> unavailable (data e g) then (e, [], Some StoreUnavailable)
          else if \<not> enabled (data e g) then (e, [], None)
          else if py_gt (py_add (last_timestamp (cooldowns e) g (author m)) (cooldown (data e g))) now
            then (e\<lparr>cooldowns := (cooldowns e)(g \<mapsto> checked (cooldowns e) g (author m))\<rparr>, [], None)
          else if Fetch_all \<in> unavailable (data e g)
            then (e\<lparr>cooldowns := (cooldowns e)(g \<mapsto> checked (cooldowns e) g (author m))\<rparr>, [],
                  Some StoreUnavailable)
          else
            (case find (\<lambda>r. str_in (trigger r) (content m)) (messages (data e g)) of
               None \<Rightarrow>
                 (e\<lparr>cooldowns := (cooldowns e)(g \<mapsto> checked (cooldowns e) g (author m))\<rparr>, [], None)
             | Some r \<Rightarrow>
                 (e\<lparr>cooldowns :=
                      (cooldowns e)(g \<mapsto> (checked (cooldowns e) g (author m))
                               (author m \<mapsto> PyFloat now'))\<rparr>,
                  [response r], None)))"
  unfolding on_message_def setdefault_twice
  by (simp add: is_enabled_def get_guild_cooldown_def get_messages_def get_dict_value_def
      fetch_all_def respond_loop_find Let_def split: option.splits)

lemma on_message_data: "data (fst (on_message e m now now')) = data e"
  by (simp add: on_message_unfold split: option.splits)

subsection \<open>Every reachable store is well formed\<close>

lemma store_ok_default: "store_ok u default_guild_data"
  by (simp add: store_ok_def default_guild_data_def)

lemma store_ok_settings:
  "store_ok u d \<Longrightarrow> store_ok u (d\<lparr>enabled := b\<rparr>) \<and> store_ok u (d\<lparr>cooldown := c\<rparr>) \<and> store_ok u (d\<lparr>unavailable := ops\<rparr>)"
  by (simp add: store_ok_def)

lemma store_ok_insert:
  assumes "store_ok u d" "length (messages d) < 20" "execute_insert d (lower u t) r a = Inr d'"
  shows "store_ok u d'"
proof -
  have d': "d' = d\<lparr>messages := messages d @
                     [\<lparr>row_id = seq d + 1, trigger = lower u t, response = r, author_id = a\<rparr>],
                   seq := seq d + 1\<rparr>"
    using assms(3) by (auto simp: execute_insert_def split: if_splits)
  have "\<forall>m\<in>set (messages d). row_id m \<le> seq d"
    using assms(1) by (simp add: store_ok_def list_all_iff)
  then show ?thesis
    using assms(1,2) unfolding d'
    by (auto simp: store_ok_def sorted_wrt_append list_all_iff)
qed

lemma store_ok_delete:
  assumes "store_ok u d" "execute_delete d i = Inr d'"
  shows "store_ok u d'"
proof -
  have d': "d' = d\<lparr>messages := filter (\<lambda>m. row_id m \<noteq> i) (messages d)\<rparr>"
    using assms(2) by (auto simp: execute_delete_def split: if_splits)
  have "length (filter (\<lambda>m. row_id m \<noteq> i) (messages d)) \<le> 20"
    using assms(1) le_trans[OF length_filter_le] by (auto simp: store_ok_def)
  moreover have "sorted_wrt (<) (map row_id (filter (\<lambda>m. row_id m \<noteq> i) (messages d)))"
    using assms(1) by (simp add: store_ok_def sorted_wrt_map sorted_wrt_filter)
  ultimately show ?thesis
    using assms(1) unfolding d' by (auto simp: store_ok_def list_all_iff)
qed

lemma trig_add_ok:
  assumes "\<forall>g. store_ok u (data e g)"
  shows "store_ok u (data (fst (trig_add u e i trig resp)) g)"
proof (cases "i_guild i")
  case None
  then show ?thesis using assms by (simp add: trig_add_def)
next
  case (Some h)
  show ?thesis
  proof (cases "fst (trig_add u e i trig resp) = e")
    case True
    then show ?thesis using assms by simp
  next
    case False
    then obtain d' where ins: "execute_insert (data e h) (lower u trig) resp (user_id i) = Inr d'"
      and len: "length (messages (data e h)) < 20"
      and e': "fst (trig_add u e i trig resp) = e\<lparr>data := (data e)(h := d')\<rparr>"
      using Some
      by (auto simp: trig_add_def get_messages_def fetch_all_def finish_def add_message_def
          store_def Let_def split: if_splits sum.splits)
    have "store_ok u d'" using store_ok_insert[OF _ len ins] assms by simp
    then show ?thesis using assms by (simp add: e')
  qed
qed

lemma trig_remove_ok:
  assumes "\<forall>g. store_ok u (data e g)"
  shows "store_ok u (data (fst (trig_remove e i n)) g)"
  using assms
  by (auto simp: trig_remove_def finish_def remove_message_def store_def
      split: option.splits sum.splits dest: store_ok_delete)

lemma config_ok:
  assumes "\<forall>g. store_ok u (data e g)"
  shows "store_ok u (data (fst (config_enable e i b)) g)"
    and "store_ok u (data (fst (config_cooldown e i c)) g)"
  using assms
  by (auto simp: config_enable_def config_cooldown_def finish_def set_enabled_def
      set_guild_cooldown_def set_dict_value_def store_def store_ok_settings
      split: option.splits sum.splits if_splits)

lemma reachable_ok: "reachable u e \<Longrightarrow> store_ok u (data e g)"
proof (induction e arbitrary: g rule: reachable.induct)
  case r_init
  then show ?case by (simp add: init_def store_ok_default)
next
  case (r_enable e i b)
  then show ?case by (simp add: config_ok)
next
  case (r_cooldown e c i)
  then show ?case by (simp add: config_ok)
next
  case (r_add e i trig resp)
  then show ?case by (simp add: trig_add_ok)
next
  case (r_remove e i n)
  then show ?case by (simp add: trig_remove_ok)
next
  case (r_message e m now now')
  then show ?case by (simp add: on_message_data)
next
  case (r_fault e g' ops)
  then show ?case by (simp add: store_ok_settings)
qed

subsection \<open>The commands, path by path\<close>

lemma trig_add_unfold:
  assumes "i_guild i = Some g" "Fetch_all \<notin> unavailable (data e g)"
  shows "trig_add u e i trig resp =
     (if trigger_used (messages (data e g)) (lower u trig) then (e, Inr DuplicateTrigger)
      else if length (messages (data e g)) \<ge> 20 then (e, Inr LimitExceeded)
      else if Execute \<in> unavailable (data e g) then (e, Inl StoreUnavailable)
      else (e\<lparr>data := (data e)(g := (data e g)
               \<lparr>messages := messages (data e g) @
                  [\<lparr>row_id = seq (data e g) + 1, trigger = lower u trig, response = resp,
                    author_id = user_id i\<rparr>],
                seq := seq (data e g) + 1\<rparr>)\<rparr>, Inr Success))"
  using assms
  by (simp add: trig_add_def get_messages_def fetch_all_def finish_def add_message_def
      store_def execute_insert_def Let_def)

lemma trig_remove_unfold:
  assumes "i_guild i = Some g" "Execute \<notin> unavailable (data e g)"
  shows "trig_remove e i n =
     (e\<lparr>data := (data e)(g := (data e g)
          \<lparr>messages := filter (\<lambda>m. row_id m \<noteq> n) (messages (data e g))\<rparr>)\<rparr>, Inr Success)"
  using assms
  by (simp add: trig_remove_def finish_def remove_message_def store_def execute_delete_def)

subsection \<open>The concrete states\<close>

lemma reachable_adds:
  "reachable u e \<Longrightarrow> reachable u (foldl (\<lambda>e n. fst (trig_add u e i (f n) r)) e ns)"
  by (induction ns arbitrary: e) (auto intro: reachable.r_add)

lemma full_store_reachable: "reachable ascii_only full_store"
  unfolding full_store_def by (rule reachable_adds[OF reachable.r_init])

lemma full_store_length: "length (messages (data full_store 1)) = 20"
  by code_simp

lemma full_store_available: "unavailable (data full_store 1) = {}"
  by code_simp

lemma hi_store_reachable: "reachable ascii_only hi_store"
  unfolding hi_store_def by (rule reachable.r_add[OF reachable.r_init])

lemma hi_store_messages:
  "messages (data hi_store 1) =
     [\<lparr>row_id = 1, trigger = ''hi'', response = ''hello there'', author_id = 42\<rparr>]"
  by code_simp

lemma hi_store_available: "unavailable (data hi_store 1) = {}"
  by code_simp

lemmas eval_defs = trig_add_def get_messages_def fetch_all_def finish_def add_message_def
      store_def execute_insert_def Let_def init_def default_guild_data_def i1_def

lemma lower_gm: "lower ascii_only ''gm'' = ''gm''"
  by code_simp

lemma lower_morning: "lower ascii_only ''morning'' = ''morning''"
  by code_simp

lemma lower_Hello: "lower ascii_only ''Hello'' = ''hello''"
  by code_simp

lemma gm_store_eq:
  "gm_store = \<lparr>data = (\<lambda>g. default_guild_data)(1 := \<lparr>enabled = True, cooldown = 5,
       messages = [\<lparr>row_id = 1, trigger = ''gm'', response = ''good morning'', author_id = 42\<rparr>],
       seq = 1, unavailable = {}\<rparr>), cooldowns = Map.empty\<rparr>"
  by (simp add: gm_store_def eval_defs lower_gm)

lemma gm_store_reachable: "reachable ascii_only gm_store"
  unfolding gm_store_def by (intro reachable.r_add reachable.r_init)

lemma two_store_eq:
  "two_store = \<lparr>data = (\<lambda>g. default_guild_data)(1 := \<lparr>enabled = True, cooldown = 5,
       messages = [\<lparr>row_id = 1, trigger = ''gm'', response = ''good morning'', author_id = 42\<rparr>,
                   \<lparr>row_id = 2, trigger = ''morning'', response = ''it is'', author_id = 42\<rparr>],
       seq = 2, unavailable = {}\<rparr>), cooldowns = Map.empty\<rparr>"
  by (simp add: two_store_def gm_store_eq trig_add_def get_messages_def fetch_all_def finish_def
      add_message_def store_def execute_insert_def Let_def i1_def lower_morning)

lemma two_store_reachable: "reachable ascii_only two_store"
  unfolding two_store_def gm_store_def by (intro reachable.r_add reachable.r_init)

lemma catch_all_store_eq:
  "catch_all_store = \<lparr>data = (\<lambda>g. default_guild_data)(1 := \<lparr>enabled = True, cooldown = 5,
       messages = [\<lparr>row_id = 1, trigger = ''gm'', response = ''good morning'', author_id = 42\<rparr>,
                   \<lparr>row_id = 2, trigger = [], response = ''pong'', author_id = 42\<rparr>],
       seq = 2, unavailable = {}\<rparr>), cooldowns = Map.empty\<rparr>"
  by (simp add: catch_all_store_def gm_store_eq trig_add_def get_messages_def fetch_all_def
      finish_def add_message_def store_def execute_insert_def Let_def i1_def lower_def)

lemma catch_all_store_reachable: "reachable ascii_only catch_all_store"
  unfolding catch_all_store_def by (rule reachable.r_add[OF gm_store_reachable])

lemma hello_store_eq:
  "hello_store = \<lparr>data = (\<lambda>g. default_guild_data)(1 := \<lparr>enabled = True, cooldown = 5,
       messages = [\<lparr>row_id = 1, trigger = ''hello'', response = ''hi there'', author_id = 42\<rparr>],
       seq = 1, unavailable = {}\<rparr>), cooldowns = Map.empty\<rparr>"
  by (simp add: hello_store_def eval_defs lower_Hello)



lemma broken_store_eq:
  "broken_store = \<lparr>data = (\<lambda>g. default_guild_data)(1 := \<lparr>enabled = True, cooldown = 5,
       messages = [\<lparr>row_id = 1, trigger = ''gm'', response = ''good morning'', author_id = 42\<rparr>],
       seq = 1, unavailable = {Fetch_all}\<rparr>), cooldowns = Map.empty\<rparr>"
  by (simp add: broken_store_def gm_store_eq)

lemma broken_store_reachable: "reachable ascii_only broken_store"
  unfolding broken_store_def by (rule reachable.r_fault[OF gm_store_reachable])

lemma late_store_eq: "late_store = gm_store\<lparr>cooldowns := [1 \<mapsto> [7 \<mapsto> PyFloat clock_a]]\<rparr>"
  by (simp add: late_store_def gm_store_eq say_def on_message_unfold last_timestamp_def
      checked_def clock_a_def)

lemma late_store_reachable: "reachable ascii_only late_store"
  unfolding late_store_def by (rule reachable.r_message[OF gm_store_reachable])

section \<open>The claims\<close>

subsection \<open>The first matching record answers\<close>

text \<open>
  Claim C1. A message of a user who is no bot, in a guild whose store can be read and
  where the module is enabled, arrives when the cooldown of the user is over, that is
  when the test of line 191 does not hold (by \<open>elapsed_if_real\<close> this is so whenever
  the last time plus the cooldown is at most \<open>now\<close>). If \<open>r\<close>
  is the record with the least id among those whose trigger is in the content, then
  \<open>on_message\<close> sends the response of \<open>r\<close> and nothing else, stores the time \<open>now'\<close>
  for this guild and user, and leaves every other time and every store as it was.
  Whatever the message, at most one response is sent.
\<close>

theorem on_message_first_match:
  "length (fst (snd (on_message e m now now'))) \<le> 1 \<and>
   (reachable u e \<and> guild m = Some g \<and> \<not> author_bot m \<and>
    Get_dict_value \<notin> unavailable (data e g) \<and> Fetch_all \<notin> unavailable (data e g) \<and>
    enabled (data e g) \<and>
    \<not> py_gt (py_add (last_timestamp (cooldowns e) g (author m)) (cooldown (data e g))) now \<and>
    r \<in> set (messages (data e g)) \<and> str_in (trigger r) (content m) \<and>
    (\<forall>r'\<in>set (messages (data e g)). str_in (trigger r') (content m) \<longrightarrow> row_id r \<le> row_id r')
    \<longrightarrow>
      snd (on_message e m now now') = ([response r], None) \<and>
      data (fst (on_message e m now now')) = data e \<and>
      (\<forall>g' u'. last_timestamp (cooldowns (fst (on_message e m now now'))) g' u' =
         (if g' = g \<and> u' = author m then PyFloat now' else last_timestamp (cooldowns e) g' u')))"
proof (intro conjI impI)
  show "length (fst (snd (on_message e m now now'))) \<le> 1"
    by (simp add: on_message_unfold split: option.splits)
next
  assume h: "reachable u e \<and> guild m = Some g \<and> \<not> author_bot m \<and>
    Get_dict_value \<notin> unavailable (data e g) \<and> Fetch_all \<notin> unavailable (data e g) \<and>
    enabled (data e g) \<and>
    \<not> py_gt (py_add (last_timestamp (cooldowns e) g (author m)) (cooldown (data e g))) now \<and>
    r \<in> set (messages (data e g)) \<and> str_in (trigger r) (content m) \<and>
    (\<forall>r'\<in>set (messages (data e g)). str_in (trigger r') (content m) \<longrightarrow> row_id r \<le> row_id r')"
  have "sorted_wrt (<) (map row_id (messages (data e g)))"
    using reachable_ok[of u e g] h by (simp add: store_ok_def)
  then have f: "find (\<lambda>r. str_in (trigger r) (content m)) (messages (data e g)) = Some r"
    using h by (intro find_least) auto
  have om: "on_message e m now now' =
     (e\<lparr>cooldowns :=
          (cooldowns e)(g \<mapsto> (checked (cooldowns e) g (author m))(author m \<mapsto> PyFloat now'))\<rparr>,
      [response r], None)"
    using h f by (simp add: on_message_unfold)
  show "snd (on_message e m now now') = ([response r], None)"
    by (simp add: om)
  show "data (fst (on_message e m now now')) = data e"
    by (simp add: om)
  show "\<forall>g' u'. last_timestamp (cooldowns (fst (on_message e m now now'))) g' u' =
         (if g' = g \<and> u' = author m then PyFloat now' else last_timestamp (cooldowns e) g' u')"
    by (simp add: om last_timestamp_recorded)
qed

text \<open>
  Two records match \<open>gm, good morning\<close>; the response is that of the record of id 1.
\<close>

theorem on_message_first_match_witness:
  "reachable ascii_only two_store \<and> str_in ''gm'' ''gm, good morning'' \<and> str_in ''morning'' ''gm, good morning'' \<and>
   snd (on_message two_store (say 7 ''gm, good morning'') 1700000000 1700000001) =
     ([''good morning''], None) \<and>
   last_timestamp (cooldowns two_store) 1 7 = PyInt 0 \<and>
   last_timestamp (cooldowns (fst (on_message two_store (say 7 ''gm, good morning'')
      1700000000 1700000001))) 1 7 = PyFloat 1700000001"
  using on_message_first_match[where u = ascii_only and e = two_store
      and m = "say 7 ''gm, good morning''" and now = 1700000000 and now' = 1700000001 and g = 1
      and r = "\<lparr>row_id = 1, trigger = ''gm'', response = ''good morning'', author_id = 42\<rparr>"]
    two_store_reachable
  by (simp add: two_store_eq say_def last_timestamp_def)

subsection \<open>The threshold of the cooldown\<close>

text \<open>
  Claim C2, as amended. For a guild and a user with a stored time \<open>t\<close> of the last
  response, and a message that some record matches, \<open>on_message\<close> responds exactly
  when the test of line 191 does not hold: the sum of \<open>t\<close> and the cooldown, rounded
  as binary64 rounds it, is not greater than \<open>now\<close>. Whenever that sum is exact, this
  is the threshold \<open>now - t \<ge> cooldown\<close>.
\<close>

theorem on_message_cooldown_threshold:
  assumes "guild m = Some g" "\<not> author_bot m"
    and "Get_dict_value \<notin> unavailable (data e g)" "Fetch_all \<notin> unavailable (data e g)"
    and "enabled (data e g)"
    and "cooldowns e g = Some cds" "cds (author m) = Some t"
    and "r \<in> set (messages (data e g))" "str_in (trigger r) (content m)"
  shows "(fst (snd (on_message e m now now')) \<noteq> [] \<longleftrightarrow>
            \<not> py_gt (py_add t (cooldown (data e g))) now) \<and>
         (num_value (py_add t (cooldown (data e g))) = num_value t + real_of_int (cooldown (data e g))
            \<longrightarrow> (fst (snd (on_message e m now now')) \<noteq> [] \<longleftrightarrow>
                 now - num_value t \<ge> real_of_int (cooldown (data e g))))"
proof -
  have l: "last_timestamp (cooldowns e) g (author m) = t"
    using assms(6,7) by (simp add: last_timestamp_def)
  have "find (\<lambda>r. str_in (trigger r) (content m)) (messages (data e g)) \<noteq> None"
    using assms(8,9) by (auto simp: find_None_iff)
  then have a: "fst (snd (on_message e m now now')) \<noteq> [] \<longleftrightarrow>
            \<not> py_gt (py_add t (cooldown (data e g))) now"
    using assms(1-5) l by (auto simp: on_message_unfold)
  have b: "py_gt n now \<longleftrightarrow> num_value n > now" for n
    by (cases n) simp_all
  show ?thesis
    using a by (auto simp: b)
qed

text \<open>
  Cooldown 5 and last response at time 0: the sum is exact, and there is no response
  at time 4.999 and a response at time 5.
\<close>

theorem on_message_cooldown_threshold_witness:
  "cooldown (data cooling_store 1) = 5 \<and> cooldowns cooling_store 1 = Some [7 \<mapsto> PyFloat 0] \<and>
   str_in ''gm'' ''gm!'' \<and> py_add (PyFloat 0) 5 = PyFloat 5 \<and>
   fst (snd (on_message cooling_store (say 7 ''gm!'') (4999 / 1000) (4999 / 1000))) = [] \<and>
   fst (snd (on_message cooling_store (say 7 ''gm!'') 5 5)) \<noteq> []"
  using on_message_cooldown_threshold[of "say 7 ''gm!''" 1 cooling_store "[7 \<mapsto> PyFloat 0]"
      "PyFloat 0"
      "\<lparr>row_id = 1, trigger = ''gm'', response = ''good morning'', author_id = 42\<rparr>"
      "4999 / 1000" "4999 / 1000"]
    on_message_cooldown_threshold[of "say 7 ''gm!''" 1 cooling_store "[7 \<mapsto> PyFloat 0]"
      "PyFloat 0"
      "\<lparr>row_id = 1, trigger = ''gm'', response = ''good morning'', author_id = 42\<rparr>" 5 5]
  by (simp add: cooling_store_def gm_store_eq say_def round64_5)

text \<open>
  Claim C2 as it is written fails. User 7 got a response at the first reading of the
  clock and writes again at the second one. The sum of the first reading and the
  cooldown 5 lies halfway between two binary64 numbers and is rounded down to the
  second reading, so the test of line 191 does not hold and \<open>on_message\<close> responds,
  while the second reading minus the first is less than 5.
\<close>

theorem on_message_cooldown_threshold_counterexample:
  "reachable ascii_only late_store \<and>
   cooldowns late_store 1 = Some [7 \<mapsto> PyFloat clock_a] \<and>
   cooldown (data late_store 1) = 5 \<and>
   py_add (PyFloat clock_a) 5 = PyFloat clock_b \<and>
   snd (on_message late_store (say 7 ''gm'') clock_b 2147483649) = ([''good morning''], None) \<and>
   clock_b - clock_a < 5"
proof -
  have "py_add (PyFloat clock_a) 5 = PyFloat clock_b"
    by (simp add: round64_5 round64_clock)
  moreover have "clock_b - clock_a < 5"
    by (simp add: clock_a_def clock_b_def)
  moreover have "snd (on_message late_store (say 7 ''gm'') clock_b 2147483649) =
      ([''good morning''], None)"
    by (simp add: late_store_eq gm_store_eq say_def on_message_unfold last_timestamp_def
        round64_5 round64_clock)
  ultimately show ?thesis
    using late_store_reachable by (simp add: late_store_eq gm_store_eq)
qed

subsection \<open>The limit of twenty records\<close>

text \<open>
  Claim C3, as amended. In every reachable state the list of records of a guild has at
  most 20 entries. When a guild holds 20 records and the rows can be read, \<open>trig_add\<close>
  leaves the state as it is and answers \<open>DuplicateTrigger\<close> if the trigger, in lower
  case, is already stored, and \<open>LimitExceeded\<close> otherwise.
\<close>

theorem trig_add_limit:
  assumes "reachable u e"
  shows "(\<forall>msgs. get_messages e g = Inr msgs \<longrightarrow> length msgs \<le> 20) \<and>
    (i_guild i = Some g \<and> 20 \<le> length (messages (data e g)) \<and>
     Fetch_all \<notin> unavailable (data e g) \<longrightarrow>
       trig_add u e i trig resp =
         (e, Inr (if lower u trig \<in> trigger ` set (messages (data e g))
                  then DuplicateTrigger else LimitExceeded)))"
proof -
  have "length (messages (data e g)) \<le> 20"
    using reachable_ok[OF assms, of g] by (simp add: store_ok_def)
  then have "\<forall>msgs. get_messages e g = Inr msgs \<longrightarrow> length msgs \<le> 20"
    by (auto simp: get_messages_def fetch_all_def split: if_splits)
  then show ?thesis
    by (simp add: trig_add_unfold trigger_used_iff)
qed

text \<open>With twenty records stored, a new trigger \<open>zzz\<close> is refused with \<open>LimitExceeded\<close>.\<close>

theorem trig_add_limit_witness:
  "reachable ascii_only full_store \<and> get_messages full_store 1 = Inr (messages (data full_store 1)) \<and>
   length (messages (data full_store 1)) = 20 \<and>
   trig_add ascii_only full_store i1 ''zzz'' ''late'' = (full_store, Inr LimitExceeded)"
proof -
  have a: "lower ascii_only ''zzz'' \<notin> trigger ` set (messages (data full_store 1))"
    by code_simp
  have b: "get_messages full_store 1 = Inr (messages (data full_store 1))"
    using full_store_available full_store_length
    by (auto simp: get_messages_def fetch_all_def)
  show ?thesis
    using trig_add_limit[OF full_store_reachable, where g = 1 and i = i1 and trig = "''zzz''"
        and resp = "''late''"]
      a b full_store_reachable full_store_length full_store_available
    by (simp add: i1_def)
qed

text \<open>
  Claim C3 as it is written fails: with twenty records stored, adding \<open>AAA\<close>, whose
  lower case \<open>aaa\<close> is stored, is refused with \<open>DuplicateTrigger\<close>, not with
  \<open>LimitExceeded\<close>.
\<close>

theorem trig_add_limit_counterexample:
  "reachable ascii_only full_store \<and> length (messages (data full_store 1)) = 20 \<and>
   snd (trig_add ascii_only full_store i1 ''AAA'' ''again'') = Inr DuplicateTrigger \<and>
   snd (trig_add ascii_only full_store i1 ''AAA'' ''again'') \<noteq> Inr LimitExceeded"
proof -
  have "trigger_used (messages (data full_store 1)) (lower ascii_only ''AAA'')"
    by code_simp
  then show ?thesis
    using full_store_reachable full_store_length full_store_available
    by (simp add: trig_add_unfold[where g=1] i1_def)
qed

subsection \<open>Duplicate triggers\<close>

text \<open>
  Claim C4. \<open>trig_add\<close> puts the new trigger in lower case before it compares. In every
  reachable state the trigger of a stored record \<open>r\<close> is the lower case of some string.
  Adding a trigger that has the same lower case as a string \<open>t0\<close> whose lower case is
  the trigger of \<open>r\<close>, that is a trigger that differs at most by case from the one
  \<open>r\<close> was added as, is answered with \<open>DuplicateTrigger\<close> and changes nothing. So is
  adding a trigger that has the same lower case as the stored trigger of \<open>r\<close> itself,
  \<open>str.lower\<close> leaving a string in lower case as it is. Both hold however many
  records the guild holds: the comparison comes before the test of the limit.
\<close>

theorem trig_add_duplicate:
  assumes "reachable u e" "i_guild i = Some g" "Fetch_all \<notin> unavailable (data e g)"
    and "r \<in> set (messages (data e g))"
  shows "trigger r \<in> range (lower u) \<and>
    (trigger r = lower u t0 \<and> lower u trig = lower u t0 \<longrightarrow>
       trig_add u e i trig resp = (e, Inr DuplicateTrigger)) \<and>
    ((\<forall>s. lower u (lower u s) = lower u s) \<and> lower u trig = lower u (trigger r) \<longrightarrow>
       trig_add u e i trig resp = (e, Inr DuplicateTrigger))"
proof -
  have stored: "trigger r \<in> range (lower u)"
    using reachable_ok[OF assms(1), of g] assms(4) by (simp add: store_ok_def list_all_iff)
  have dup: "trig_add u e i trig resp = (e, Inr DuplicateTrigger)" if "lower u trig = trigger r"
  proof -
    have "trigger_used (messages (data e g)) (lower u trig)"
      using assms(4) that by (auto simp: trigger_used_iff)
    then show ?thesis
      using assms(2,3) by (simp add: trig_add_unfold)
  qed
  have "lower u (trigger r) = trigger r" if "\<forall>s. lower u (lower u s) = lower u s"
    using stored that by auto
  then show ?thesis
    using stored dup by auto
qed

text \<open>
  Adding \<open>hi\<close> and then \<open>Hi\<close>: the second call is refused. The same with twenty
  records stored, among them \<open>aa\<close>, when \<open>Aa\<close> is added.
\<close>

theorem trig_add_duplicate_witness:
  "reachable ascii_only hi_store \<and> i_guild i1 = Some 1 \<and>
   Fetch_all \<notin> unavailable (data hi_store 1) \<and>
   \<lparr>row_id = 1, trigger = ''hi'', response = ''hello there'', author_id = 42\<rparr>
     \<in> set (messages (data hi_store 1)) \<and>
   ''hi'' = lower ascii_only ''hi'' \<and> lower ascii_only ''Hi'' = lower ascii_only ''hi'' \<and>
   (\<forall>s. lower ascii_only (lower ascii_only s) = lower ascii_only s) \<and>
   trig_add ascii_only hi_store i1 ''Hi'' ''again'' = (hi_store, Inr DuplicateTrigger) \<and>
   length (messages (data full_store 1)) = 20 \<and>
   trig_add ascii_only full_store i1 ''Aa'' ''again'' = (full_store, Inr DuplicateTrigger)"
proof -
  have l: "lower ascii_only ''Hi'' = ''hi''" "lower ascii_only ''hi'' = ''hi''"
    by code_simp+
  have a: "trig_add ascii_only hi_store i1 ''Hi'' ''again'' = (hi_store, Inr DuplicateTrigger)"
    using trig_add_duplicate[OF hi_store_reachable, where i = i1 and g = 1
        and r = "\<lparr>row_id = 1, trigger = ''hi'', response = ''hello there'', author_id = 42\<rparr>"
        and ?t0.0 = "''hi''" and trig = "''Hi''" and resp = "''again''"]
      l hi_store_messages hi_store_available
    by (simp add: i1_def)
  have m: "\<lparr>row_id = 2, trigger = ''aa'', response = ''ok'', author_id = 42\<rparr>
      \<in> set (messages (data full_store 1))"
    by code_simp
  have l2: "lower ascii_only ''Aa'' = ''aa''" "lower ascii_only ''aa'' = ''aa''"
    by code_simp+
  have b: "trig_add ascii_only full_store i1 ''Aa'' ''again'' = (full_store, Inr DuplicateTrigger)"
    using trig_add_duplicate[OF full_store_reachable, where i = i1 and g = 1
        and r = "\<lparr>row_id = 2, trigger = ''aa'', response = ''ok'', author_id = 42\<rparr>"
        and ?t0.0 = "''aa''" and trig = "''Aa''" and resp = "''again''"]
      l2 m full_store_available lower_ascii_only_idem
    by (simp add: i1_def)
  show ?thesis
    using a b l hi_store_reachable hi_store_messages hi_store_available full_store_length
      lower_ascii_only_idem
    by (simp add: i1_def)
qed

subsection \<open>Upper case in the message\<close>

text \<open>
  Claim C5, evaluated. After \<open>Hello\<close> was added, the stored trigger is \<open>hello\<close>. The
  message \<open>Hello\<close> gets no response, since \<open>hello\<close> does not occur in it; the message
  \<open>hello\<close> gets the response.
\<close>

theorem on_message_case_sensitive:
  "snd (trig_add ascii_only init i1 ''Hello'' ''hi there'') = Inr Success \<and>
   messages (data hello_store 1) =
     [\<lparr>row_id = 1, trigger = ''hello'', response = ''hi there'', author_id = 42\<rparr>] \<and>
   snd (on_message hello_store (say 7 ''Hello'') 1700000000 1700000001) = ([], None) \<and>
   snd (on_message hello_store (say 7 ''hello'') 1700000000 1700000001) = ([''hi there''], None)"
  by (simp add: hello_store_eq say_def on_message_unfold last_timestamp_def eval_defs lower_Hello)

subsection \<open>The first message of a user\<close>




subsection \<open>No record matches\<close>

text \<open>
  Claim C7. When no record of the guild of the message has its trigger in the content,
  \<open>on_message\<close> sends nothing, and the time of the last response is the same after
  the call as before it for every guild and user; the stores are the same as well.
\<close>

theorem on_message_no_match:
  assumes "\<forall>g. guild m = Some g \<longrightarrow>
             (\<forall>r\<in>set (messages (data e g)). \<not> str_in (trigger r) (content m))"
  shows "fst (snd (on_message e m now now')) = [] \<and>
         data (fst (on_message e m now now')) = data e \<and>
         (\<forall>g u. last_timestamp (cooldowns (fst (on_message e m now now'))) g u =
                 last_timestamp (cooldowns e) g u)"
proof (cases "guild m")
  case None
  then show ?thesis by (simp add: on_message_unfold)
next
  case (Some g)
  then have "find (\<lambda>r. str_in (trigger r) (content m)) (messages (data e g)) = None"
    using assms by (simp add: find_None_iff)
  then show ?thesis
    using Some by (simp add: on_message_unfold last_timestamp_checked)
qed

text \<open>
  The message \<open>hello\<close> in the guild whose only trigger is \<open>gm\<close>.
\<close>

theorem on_message_no_match_witness:
  "\<not> str_in ''gm'' ''hello'' \<and>
   fst (snd (on_message gm_store (say 7 ''hello'') 1700000000 1700000001)) = [] \<and>
   last_timestamp (cooldowns (fst (on_message gm_store (say 7 ''hello'') 1700000000 1700000001))) 1 7
     = last_timestamp (cooldowns gm_store) 1 7"
  using on_message_no_match[of "say 7 ''hello''" gm_store 1700000000 1700000001]
  by (simp add: gm_store_eq say_def)

subsection \<open>Removing a record\<close>

text \<open>
  Claim C8. In every reachable state, when the store can execute the statement,
  \<open>trig_remove\<close> answers with success. If no record has the id, the state is the same
  after the call. If the record \<open>r\<close> between \<open>pre\<close> and \<open>post\<close> has the id, the
  records after the call are \<open>pre\<close> followed by \<open>post\<close>, and nothing else changes.
\<close>

theorem trig_remove_effect:
  assumes "reachable u e" "i_guild i = Some g" "Execute \<notin> unavailable (data e g)"
  shows "snd (trig_remove e i n) = Inr Success \<and>
    (n \<notin> row_id ` set (messages (data e g)) \<longrightarrow> fst (trig_remove e i n) = e) \<and>
    (messages (data e g) = pre @ r # post \<and> row_id r = n \<longrightarrow>
       fst (trig_remove e i n) = e\<lparr>data := (data e)(g := (data e g)\<lparr>messages := pre @ post\<rparr>)\<rparr>)"
proof -
  have absent: "filter (\<lambda>m. row_id m \<noteq> n) (messages (data e g)) = messages (data e g)"
    if "n \<notin> row_id ` set (messages (data e g))"
    using that by (auto simp: filter_id_conv)
  have present: "filter (\<lambda>m. row_id m \<noteq> n) (messages (data e g)) = pre @ post"
    if "messages (data e g) = pre @ r # post" "row_id r = n"
  proof -
    have "sorted_wrt (<) (map row_id (pre @ r # post))"
      using reachable_ok[OF assms(1), of g] that(1) by (simp add: store_ok_def)
    then have "\<forall>x\<in>set pre. row_id x \<noteq> n" "\<forall>x\<in>set post. row_id x \<noteq> n"
      using that(2) by (auto simp: sorted_wrt_append)
    then show ?thesis
      using that by (simp add: filter_id_conv)
  qed
  show ?thesis
    using absent present by (simp add: trig_remove_unfold[OF assms(2,3)])
qed

text \<open>
  With the one record of id 1 stored: removing id 9999 changes nothing, removing id 1
  leaves no record.
\<close>

theorem trig_remove_effect_witness:
  "reachable ascii_only hi_store \<and> i_guild i1 = Some 1 \<and> Execute \<notin> unavailable (data hi_store 1) \<and>
   9999 \<notin> row_id ` set (messages (data hi_store 1)) \<and>
   trig_remove hi_store i1 9999 = (hi_store, Inr Success) \<and>
   messages (data hi_store 1) =
     [] @ \<lparr>row_id = 1, trigger = ''hi'', response = ''hello there'', author_id = 42\<rparr> # [] \<and>
   trig_remove hi_store i1 1 =
     (hi_store\<lparr>data := (data hi_store)(1 := (data hi_store 1)\<lparr>messages := []\<rparr>)\<rparr>, Inr Success)"
proof -
  note t = trig_remove_effect[OF hi_store_reachable, of i1 1]
  have a: "trig_remove hi_store i1 9999 = (hi_store, Inr Success)"
    using t[of 9999 "[]"
        "\<lparr>row_id = 1, trigger = ''hi'', response = ''hello there'', author_id = 42\<rparr>" "[]"]
      hi_store_messages hi_store_available
    by (simp add: i1_def prod_eq_iff)
  have b: "trig_remove hi_store i1 1 =
     (hi_store\<lparr>data := (data hi_store)(1 := (data hi_store 1)\<lparr>messages := []\<rparr>)\<rparr>, Inr Success)"
    using t[of 1 "[]"
        "\<lparr>row_id = 1, trigger = ''hi'', response = ''hello there'', author_id = 42\<rparr>" "[]"]
      hi_store_messages hi_store_available
    by (simp add: i1_def prod_eq_iff)
  show ?thesis
    using a b hi_store_reachable hi_store_messages hi_store_available
    by (simp add: i1_def)
qed

subsection \<open>A store that fails\<close>

text \<open>
  Claim C9, as amended. When reading a setting fails, or when the module is enabled,
  the cooldown is over (the test of line 191 does not hold) and reading the rows fails, \<open>on_message\<close> sends nothing and
  leaves every time of a last response and every store as it was, and the exception
  \<open>StoreUnavailable\<close> leaves \<open>on_message\<close>, which has no handler for it.
\<close>

theorem on_message_store_failure:
  assumes "guild m = Some g" "\<not> author_bot m"
    and "Get_dict_value \<in> unavailable (data e g) \<or>
         (enabled (data e g) \<and>
          \<not> py_gt (py_add (last_timestamp (cooldowns e) g (author m)) (cooldown (data e g))) now \<and>
          Fetch_all \<in> unavailable (data e g))"
  shows "snd (on_message e m now now') = ([], Some StoreUnavailable) \<and>
         data (fst (on_message e m now now')) = data e \<and>
         (\<forall>g u. last_timestamp (cooldowns (fst (on_message e m now now'))) g u =
                 last_timestamp (cooldowns e) g u)"
  using assms by (auto simp: on_message_unfold last_timestamp_checked)

text \<open>
  The rows of guild 1 cannot be read when the message \<open>gm\<close> arrives.
\<close>

theorem on_message_store_failure_witness:
  "guild (say 7 ''gm'') = Some 1 \<and> \<not> author_bot (say 7 ''gm'') \<and>
   enabled (data broken_store 1) \<and> Fetch_all \<in> unavailable (data broken_store 1) \<and>
   snd (on_message broken_store (say 7 ''gm'') 1700000000 1700000001) =
     ([], Some StoreUnavailable) \<and>
   last_timestamp (cooldowns (fst (on_message broken_store (say 7 ''gm'')
     1700000000 1700000001))) 1 7 = last_timestamp (cooldowns broken_store) 1 7"
  using on_message_store_failure[of "say 7 ''gm''" 1 broken_store 1700000000 1700000001]
  by (simp add: broken_store_eq say_def last_timestamp_def)

text \<open>
  Claim C9 as it is written fails: in that state \<open>on_message\<close> does not end without
  an exception.
\<close>

theorem on_message_store_failure_counterexample:
  "reachable ascii_only broken_store \<and>
   snd (snd (on_message broken_store (say 7 ''gm'') 1700000000 1700000001)) = Some StoreUnavailable \<and>
   snd (snd (on_message broken_store (say 7 ''gm'') 1700000000 1700000001)) \<noteq> None"
  using broken_store_reachable
  by (simp add: broken_store_eq say_def on_message_unfold last_timestamp_def)

subsection \<open>The empty trigger\<close>

text \<open>
  Claim C10, as amended. \<open>trig_add\<close> accepts the empty trigger where it accepts any
  new trigger. When a record \<open>r\<close> with the empty trigger is stored, every message of a
  user who is no bot gets exactly one response whenever the module is enabled, the
  store can be read and the cooldown of the user is over: the response of the first
  record whose trigger is in the content, whose id is at most that of \<open>r\<close>. It is the
  response of \<open>r\<close> when no record with a smaller id matches.
\<close>

theorem empty_trigger:
  "(i_guild i = Some g \<and> Fetch_all \<notin> unavailable (data e g) \<and>
    Execute \<notin> unavailable (data e g) \<and> [] \<notin> trigger ` set (messages (data e g)) \<and>
    length (messages (data e g)) < 20 \<longrightarrow>
      snd (trig_add u e i [] resp) = Inr Success \<and>
      messages (data (fst (trig_add u e i [] resp)) g) =
        messages (data e g) @
          [\<lparr>row_id = seq (data e g) + 1, trigger = [], response = resp, author_id = user_id i\<rparr>]) \<and>
   (reachable u e \<and> guild m = Some g \<and> \<not> author_bot m \<and>
    Get_dict_value \<notin> unavailable (data e g) \<and> Fetch_all \<notin> unavailable (data e g) \<and>
    enabled (data e g) \<and>
    \<not> py_gt (py_add (last_timestamp (cooldowns e) g (author m)) (cooldown (data e g))) now \<and>
    r \<in> set (messages (data e g)) \<and> trigger r = [] \<longrightarrow>
      (\<exists>pre r' post. messages (data e g) = pre @ r' # post \<and>
         (\<forall>p\<in>set pre. \<not> str_in (trigger p) (content m)) \<and> str_in (trigger r') (content m) \<and>
         row_id r' \<le> row_id r \<and>
         snd (on_message e m now now') = ([response r'], None)) \<and>
      ((\<forall>p\<in>set (messages (data e g)). row_id p < row_id r \<longrightarrow> \<not> str_in (trigger p) (content m))
         \<longrightarrow> snd (on_message e m now now') = ([response r], None)))"
proof (intro conjI impI)
  assume "i_guild i = Some g \<and> Fetch_all \<notin> unavailable (data e g) \<and>
    Execute \<notin> unavailable (data e g) \<and> [] \<notin> trigger ` set (messages (data e g)) \<and>
    length (messages (data e g)) < 20"
  then have "trig_add u e i [] resp = (e\<lparr>data := (data e)(g := (data e g)
               \<lparr>messages := messages (data e g) @
                  [\<lparr>row_id = seq (data e g) + 1, trigger = [], response = resp,
                    author_id = user_id i\<rparr>],
                seq := seq (data e g) + 1\<rparr>)\<rparr>, Inr Success)"
    by (simp add: trig_add_unfold trigger_used_iff lower_Nil)
  then show "snd (trig_add u e i [] resp) = Inr Success"
    and "messages (data (fst (trig_add u e i [] resp)) g) =
        messages (data e g) @
          [\<lparr>row_id = seq (data e g) + 1, trigger = [], response = resp, author_id = user_id i\<rparr>]"
    by simp_all
next
  assume h: "reachable u e \<and> guild m = Some g \<and> \<not> author_bot m \<and>
    Get_dict_value \<notin> unavailable (data e g) \<and> Fetch_all \<notin> unavailable (data e g) \<and>
    enabled (data e g) \<and>
    \<not> py_gt (py_add (last_timestamp (cooldowns e) g (author m)) (cooldown (data e g))) now \<and>
    r \<in> set (messages (data e g)) \<and> trigger r = []"
  let ?P = "\<lambda>p. str_in (trigger p) (content m)"
  let ?ms = "messages (data e g)"
  have sorted: "sorted_wrt (<) (map row_id ?ms)"
    using reachable_ok[of u e g] h by (simp add: store_ok_def)
  have Pr: "?P r" using h by (simp add: str_in_empty)
  then have "find ?P ?ms \<noteq> None"
    using h by (auto simp: find_None_iff)
  then obtain r' where f: "find ?P ?ms = Some r'" by auto
  then obtain k where k: "k < length ?ms" "?P (?ms ! k)" "r' = ?ms ! k" "\<forall>j<k. \<not> ?P (?ms ! j)"
    by (auto simp: find_Some_iff)
  have om: "snd (on_message e m now now') = ([response r'], None)"
    using h f by (simp add: on_message_unfold)
  obtain n where n: "n < length ?ms" "r = ?ms ! n"
    using h by (auto simp: in_set_conv_nth)
  have "k \<le> n" using k(4) n Pr by (metis not_le)
  have le: "row_id r' \<le> row_id r"
  proof (cases "k = n")
    case True
    then show ?thesis using k(3) n(2) by simp
  next
    case False
    then have "k < n" using \<open>k \<le> n\<close> by simp
    then have "map row_id ?ms ! k < map row_id ?ms ! n"
      using sorted n(1) by (simp add: sorted_wrt_iff_nth_less)
    then show ?thesis using k(1,3) n by simp
  qed
  have split: "?ms = take k ?ms @ r' # drop (Suc k) ?ms"
    using k(1,3) by (simp add: id_take_nth_drop)
  have pre: "\<forall>p\<in>set (take k ?ms). \<not> ?P p"
    using k(1,4) by (auto simp: in_set_conv_nth)
  show "\<exists>pre r' post. ?ms = pre @ r' # post \<and>
         (\<forall>p\<in>set pre. \<not> str_in (trigger p) (content m)) \<and> str_in (trigger r') (content m) \<and>
         row_id r' \<le> row_id r \<and>
         snd (on_message e m now now') = ([response r'], None)"
    using split pre k(2,3) le om by blast
  show "snd (on_message e m now now') = ([response r], None)"
    if "\<forall>p\<in>set ?ms. row_id p < row_id r \<longrightarrow> \<not> ?P p"
  proof -
    have "find ?P ?ms = Some r"
      using sorted h Pr that by (intro find_least) (auto simp: not_less)
    then show ?thesis using f om by simp
  qed
qed

text \<open>
  The empty trigger is added after \<open>gm\<close>; the message \<open>hello\<close> gets its response.
\<close>

theorem empty_trigger_witness:
  "snd (trig_add ascii_only gm_store i1 [] ''pong'') = Inr Success \<and>
   messages (data catch_all_store 1) =
     [\<lparr>row_id = 1, trigger = ''gm'', response = ''good morning'', author_id = 42\<rparr>,
      \<lparr>row_id = 2, trigger = [], response = ''pong'', author_id = 42\<rparr>] \<and>
   reachable ascii_only catch_all_store \<and> \<not> str_in ''gm'' ''hello'' \<and>
   snd (on_message catch_all_store (say 7 ''hello'') 1700000000 1700000001) = ([''pong''], None)"
proof -
  have a: "snd (trig_add ascii_only gm_store i1 [] ''pong'') = Inr Success"
    using empty_trigger[where u = ascii_only and i = i1 and g = 1 and e = gm_store
        and resp = "''pong''"]
    by (simp add: gm_store_eq i1_def)
  have b: "snd (on_message catch_all_store (say 7 ''hello'') 1700000000 1700000001) =
      ([''pong''], None)"
    using empty_trigger[where u = ascii_only and i = i1 and g = 1 and e = catch_all_store
        and resp = "''pong''" and m = "say 7 ''hello''" and now = 1700000000
        and now' = 1700000001
        and r = "\<lparr>row_id = 2, trigger = [], response = ''pong'', author_id = 42\<rparr>"]
      catch_all_store_reachable
    by (simp add: catch_all_store_eq say_def last_timestamp_def)
  show ?thesis
    using a b catch_all_store_reachable by (simp add: catch_all_store_eq)
qed

text \<open>
  Claim C10 as it is written fails: the message \<open>gm\<close> gets the response of the
  record \<open>gm\<close>, not that of the empty trigger, and the message of a bot gets none.
\<close>

theorem empty_trigger_counterexample:
  "reachable ascii_only catch_all_store \<and>
   \<lparr>row_id = 2, trigger = [], response = ''pong'', author_id = 42\<rparr>
     \<in> set (messages (data catch_all_store 1)) \<and>
   enabled (data catch_all_store 1) \<and>
   \<not> py_gt (py_add (last_timestamp (cooldowns catch_all_store) 1 7)
            (cooldown (data catch_all_store 1))) 1700000000 \<and>
   snd (on_message catch_all_store (say 7 ''gm'') 1700000000 1700000001) =
     ([''good morning''], None) \<and>
   snd (on_message catch_all_store ((say 7 ''gm'')\<lparr>author_bot := True\<rparr>) 1700000000 1700000001) =
     ([], None)"
  using catch_all_store_reachable
  by (simp add: catch_all_store_eq say_def on_message_unfold last_timestamp_def)

end
